theory Spec2Isabelle
  imports Main "HOL-Library.Sublist" "HOL-Library.Word"
begin

section \<open>JavaScript primitives used by the library\<close>

text \<open>
  Strings are lists of 8-bit characters; a byte of a Buffer is an 8-bit word. The
  built-in operations of JavaScript, Node's Buffer and the big-integer package that
  \<open>index.ts\<close> calls are written out as functions with the behaviour those platforms
  document.
\<close>

type_synonym byte = "8 word"

datatype error = NotValidIP | CannotSplitHostPort | CouldNotEncode

text \<open>\<open>s.split(sep)\<close> for a one-character separator: always at least one part.\<close>

fun split :: "char \<Rightarrow> string \<Rightarrow> string list" where
  "split sep [] = [[]]"
| "split sep (c # cs) =
     (if c = sep then [] # split sep cs
      else (case split sep cs of [] \<Rightarrow> [[c]] | p # ps \<Rightarrow> (c # p) # ps))"

text \<open>\<open>xs.join(sep)\<close>.\<close>

fun join :: "string \<Rightarrow> string list \<Rightarrow> string" where
  "join sep [] = []"
| "join sep [x] = x"
| "join sep (x # y # ys) = x @ sep @ join sep (y # ys)"

text \<open>\<open>join\<close> on an array that may hold \<open>null\<close>: a \<open>null\<close> element is rendered empty.\<close>

definition join_null :: "string \<Rightarrow> string option list \<Rightarrow> string" where
  "join_null sep xs = join sep (map (\<lambda>x. case x of None \<Rightarrow> [] | Some s \<Rightarrow> s) xs)"

text \<open>\<open>s.indexOf(t)\<close>: the position of the first occurrence of \<open>t\<close>, or \<open>-1\<close>.\<close>

fun index_from :: "nat \<Rightarrow> string \<Rightarrow> string \<Rightarrow> int" where
  "index_from i [] t = (if t = [] then int i else -1)"
| "index_from i (c # s) t = (if prefix t (c # s) then int i else index_from (Suc i) s t)"

definition indexOf :: "string \<Rightarrow> string \<Rightarrow> int" where
  "indexOf s t = index_from 0 s t"

text \<open>\<open>s.replace(t, r)\<close> for a string pattern: only the first occurrence is replaced.\<close>

fun replace_first :: "string \<Rightarrow> string \<Rightarrow> string \<Rightarrow> string" where
  "replace_first [] t r = (if t = [] then r else [])"
| "replace_first (c # s) t r =
     (if prefix t (c # s) then r @ drop (length t) (c # s)
      else c # replace_first s t r)"

text \<open>\<open>s.replace(/0000/g, '0')\<close>: every non-overlapping occurrence, left to right.\<close>

fun replace_all_0000 :: "string \<Rightarrow> string" where
  "replace_all_0000 (a # b # c # d # s) =
     (if [a, b, c, d] = ''0000'' then CHR ''0'' # replace_all_0000 s
      else a # replace_all_0000 (b # c # d # s))"
| "replace_all_0000 s = s"

text \<open>\<open>s.padStart(n, c)\<close> for a one-character filler.\<close>

definition padStart :: "nat \<Rightarrow> char \<Rightarrow> string \<Rightarrow> string" where
  "padStart n c s = replicate (n - length s) c @ s"

text \<open>\<open>s.substring(a, b)\<close> for \<open>a \<le> b\<close>.\<close>

definition substring :: "nat \<Rightarrow> nat \<Rightarrow> string \<Rightarrow> string" where
  "substring a b s = take (b - a) (drop a s)"

subsection \<open>Numbers and their text\<close>

definition digit_char :: "nat \<Rightarrow> char" where
  "digit_char d = ''0123456789abcdef'' ! d"

text \<open>Value of a character as a digit, letters in either case as JavaScript reads them.\<close>

definition digit_val :: "char \<Rightarrow> nat option" where
  "digit_val c =
     (let n = (of_char c :: nat) in
      if 48 \<le> n \<and> n \<le> 57 then Some (n - 48)
      else if 97 \<le> n \<and> n \<le> 122 then Some (n - 87)
      else if 65 \<le> n \<and> n \<le> 90 then Some (n - 55)
      else None)"

definition radix_digit :: "nat \<Rightarrow> char \<Rightarrow> nat option" where
  "radix_digit r c =
     (case digit_val c of None \<Rightarrow> None | Some d \<Rightarrow> if d < r then Some d else None)"

definition is_space :: "char \<Rightarrow> bool" where
  "is_space c = ((of_char c :: nat) \<in> {9, 10, 11, 12, 13, 32, 160})"

definition digits_value :: "nat \<Rightarrow> string \<Rightarrow> int" where
  "digits_value r ds = foldl (\<lambda>a c. a * int r + int (the (radix_digit r c))) 0 ds"

text \<open>
  \<open>parseInt(str, radix)\<close> for radix 10 and 16: leading white space, a sign, for radix 16
  an optional \<open>0x\<close>, then the longest run of digits; \<open>None\<close> is \<open>NaN\<close>. The value is
  the exact integer (JavaScript rounds beyond \<open>2^53\<close>).
\<close>

definition parseInt :: "string \<Rightarrow> nat \<Rightarrow> int option" where
  "parseInt str radix =
     (let s = dropWhile is_space str;
          neg = (case s of [] \<Rightarrow> False | c # _ \<Rightarrow> c = CHR ''-'');
          s = (case s of [] \<Rightarrow> s | c # t \<Rightarrow> if c = CHR ''+'' \<or> c = CHR ''-'' then t else s);
          s = (if radix = 16 \<and> (prefix ''0x'' s \<or> prefix ''0X'' s) then drop 2 s else s);
          ds = takeWhile (\<lambda>c. radix_digit radix c \<noteq> None) s
      in if ds = [] then None
         else Some ((if neg then -1 else 1) * digits_value radix ds))"

text \<open>The hexadecimal digits of a non-negative integer, most significant first.\<close>

function hex_int :: "int \<Rightarrow> string" where
  "hex_int n =
     (if n < 16 then [digit_char (nat n)]
      else hex_int (n div 16) @ [digit_char (nat (n mod 16))])"
  by pat_completeness auto
termination
  by (relation "measure nat") auto

declare hex_int.simps [simp del]

text \<open>The decimal digits of a byte's value.\<close>

fun dec_nat :: "nat \<Rightarrow> string" where
  "dec_nat n = (if n < 10 then [digit_char n] else dec_nat (n div 10) @ [digit_char (n mod 10)])"

declare dec_nat.simps [simp del]

text \<open>\<open>n.toString(16)\<close> of an integer, as a Number and as a BigInteger.\<close>

definition int_toString16 :: "int \<Rightarrow> string" where
  "int_toString16 n = (if n < 0 then CHR ''-'' # hex_int (- n) else hex_int n)"

text \<open>\<open>x.toString(16)\<close> of a Number that may be \<open>NaN\<close>.\<close>

definition number_toString16 :: "int option \<Rightarrow> string" where
  "number_toString16 x = (case x of None \<Rightarrow> ''NaN'' | Some n \<Rightarrow> int_toString16 n)"

text \<open>
  \<open>BigInteger(text, 16)\<close> on a text of hexadecimal digits: its positional value. The
  library only passes the output of \<open>toString('hex')\<close>.
\<close>

definition bigint_of_hex :: "string \<Rightarrow> int" where
  "bigint_of_hex s = digits_value 16 s"

subsection \<open>Regular expressions\<close>

definition is_digit :: "char \<Rightarrow> bool" where
  "is_digit c = (c \<in> set ''0123456789'')"

definition is_lower_hex :: "char \<Rightarrow> bool" where
  "is_lower_hex c = (c \<in> set ''0123456789abcdef'')"

text \<open>\<open>[0-9]{1,3}\<close> at the head of a string: every remainder the group can leave.\<close>

definition digits_1_3 :: "string \<Rightarrow> string list" where
  "digits_1_3 s = [drop n s. n \<leftarrow> [3, 2, 1], n \<le> length s \<and> list_all is_digit (take n s)]"

text \<open>A literal dot at the head of a string.\<close>

definition dot :: "string \<Rightarrow> string list" where
  "dot s = (case s of [] \<Rightarrow> [] | c # t \<Rightarrow> if c = CHR ''.'' then [t] else [])"

text \<open>\<open>[0-9]{1,3}\.[0-9]{1,3}\.[0-9]{1,3}\.[0-9]{1,3}\<close> matched at the head of a string.\<close>

definition match_v4_here :: "string \<Rightarrow> bool" where
  "match_v4_here s =
     (concat (map digits_1_3 (concat (map dot (concat (map digits_1_3 (concat (map dot
        (concat (map digits_1_3 (concat (map dot (digits_1_3 s))))))))))))
      \<noteq> [])"

text \<open>\<open>re.test(s)\<close> of an unanchored expression: a match at some position.\<close>

fun test_anywhere :: "(string \<Rightarrow> bool) \<Rightarrow> string \<Rightarrow> bool" where
  "test_anywhere m [] = m []"
| "test_anywhere m (c # s) = (m (c # s) \<or> test_anywhere m s)"

text \<open>\<open>s.match(/[0-9a-f]{4}/g)\<close>: all matches, left to right; the empty list is \<open>null\<close>.\<close>

fun match_hex4 :: "string \<Rightarrow> string list" where
  "match_hex4 (a # b # c # d # s) =
     (if list_all is_lower_hex [a, b, c, d] then [a, b, c, d] # match_hex4 s
      else match_hex4 (b # c # d # s))"
| "match_hex4 s = []"

subsection \<open>Buffers\<close>

text \<open>
  \<open>Buffer.from(text, 'hex')\<close>: two digits a byte, stopping at the first pair that is not
  hexadecimal and dropping a last single digit.
\<close>

fun from_hex :: "string \<Rightarrow> byte list" where
  "from_hex (a # b # s) =
     (case (radix_digit 16 a, radix_digit 16 b) of
        (Some x, Some y) \<Rightarrow> of_nat (16 * x + y) # from_hex s
      | _ \<Rightarrow> [])"
| "from_hex s = []"

text \<open>\<open>buf.toString('hex')\<close>.\<close>

definition toString_hex :: "byte list \<Rightarrow> string" where
  "toString_hex bs = concat (map (\<lambda>b. [digit_char (unat b div 16), digit_char (unat b mod 16)]) bs)"

text \<open>\<open>Buffer.from(numbers)\<close>: each entry modulo 256, \<open>NaN\<close> as 0.\<close>

definition from_numbers :: "int option list \<Rightarrow> byte list" where
  "from_numbers xs = map (\<lambda>x. case x of None \<Rightarrow> 0 | Some n \<Rightarrow> of_int n) xs"

definition alloc :: "nat \<Rightarrow> byte list" where
  "alloc n = replicate n 0"

text \<open>\<open>a.compare(b)\<close>: bytewise order, \<open>-1\<close>, \<open>0\<close> or \<open>1\<close>.\<close>

fun compare :: "byte list \<Rightarrow> byte list \<Rightarrow> int" where
  "compare [] [] = 0"
| "compare [] (y # ys) = -1"
| "compare (x # xs) [] = 1"
| "compare (x # xs) (y # ys) = (if x < y then -1 else if y < x then 1 else compare xs ys)"

text \<open>
  \<open>source.copy(target, targetStart, sourceStart, sourceEnd)\<close>, returning the target as
  it is afterwards: the bytes copied are those that exist in the source and fit the target.
\<close>

definition copy :: "byte list \<Rightarrow> byte list \<Rightarrow> nat \<Rightarrow> nat \<Rightarrow> nat \<Rightarrow> byte list" where
  "copy source target targetStart sourceStart sourceEnd =
     (let chunk = take (sourceEnd - sourceStart) (drop sourceStart source);
          n = min (length chunk) (length target - targetStart)
      in take targetStart target @ take n chunk @ drop (targetStart + n) target)"

section \<open>The class IP\<close>

definition mappedV4Prefix :: "byte list" where
  "mappedV4Prefix = from_hex ''00000000000000000000ffff''"

record IP =
  m_bytes :: "byte list"
  m_isV4 :: bool
  m_zone :: "string option"

text \<open>\<open>new IP()\<close>: the field initialisers.\<close>

definition new_IP :: IP where
  "new_IP = \<lparr>m_bytes = alloc 16, m_isV4 = False, m_zone = None\<rparr>"

datatype encoding = Mapped | Expanded

definition decimal :: "IP \<Rightarrow> int" where
  "decimal ip =
     (if m_isV4 ip then bigint_of_hex (toString_hex (drop 12 (m_bytes ip)))
      else bigint_of_hex (toString_hex (m_bytes ip)))"

text \<open>The port is a Number: \<open>None\<close> is \<open>NaN\<close>.\<close>

definition splitHostPort :: "string \<Rightarrow> error + (string \<times> int option)" where
  "splitHostPort host =
     (if indexOf host ''.'' \<noteq> -1 then
        (let parts = split (CHR '':'') host in
         if length parts = 2 then Inr (parts ! 0, parseInt (parts ! 1) 10)
         else Inr (parts ! 0, Some 0))
      else if indexOf host ''['' \<noteq> -1 \<and> indexOf host '']'' \<noteq> -1 then
        (let host' = substring 0 (nat (indexOf host '']'' + 1)) host;
             right = drop (nat (indexOf host '']'' + 1)) host in
         if length right = 0 then Inr (host', Some 0)
         else (let rightParts = split (CHR '':'') right in
               if length rightParts = 2 then
                 (let port = rightParts ! 1 in
                  Inr (host', parseInt (if port = [] then ''0'' else port) 10))
               else Inl CannotSplitHostPort))
      else Inl CannotSplitHostPort)"

definition isIPv4 :: "string \<Rightarrow> bool" where
  "isIPv4 ip = test_anywhere match_v4_here ip"

text \<open>\<open>/[0-9a-f:%]+/.test(ip)\<close>: one character of the class anywhere.\<close>

definition isIPv6 :: "string \<Rightarrow> bool" where
  "isIPv6 ip = test_anywhere
     (\<lambda>s. case s of [] \<Rightarrow> False | c # _ \<Rightarrow> is_lower_hex c \<or> c = CHR '':'' \<or> c = CHR ''%'') ip"

definition v4StringToBuffer :: "string \<Rightarrow> byte list" where
  "v4StringToBuffer ip =
     (let bytes = map (\<lambda>octet. parseInt octet 10) (split (CHR ''.'') ip);
          ipBuffer = from_numbers bytes;
          buffer = alloc 16;
          buffer = copy mappedV4Prefix buffer 0 0 (length mappedV4Prefix);
          buffer = copy ipBuffer buffer 12 0 4
      in buffer)"

definition expandV6 :: "string \<Rightarrow> string" where
  "expandV6 address =
     (let octets = split (CHR '':'') address;
          octets = (if prefix ''::'' address then tl octets else octets);
          ins = 8 - int (length octets) + 1
      in join '':'' (concat (map
           (\<lambda>octet. if length octet \<noteq> 0 then [padStart 4 (CHR ''0'') octet]
                     else replicate (nat ins) ''0000'') octets)))"

definition v6StringToBuffer :: "string \<Rightarrow> error + (byte list \<times> string option)" where
  "v6StringToBuffer ip =
     (if indexOf ip ''%'' \<noteq> -1 then
        (let parts = split (CHR ''%'') ip in
         if length parts > 2 then Inl NotValidIP
         else Inr (from_hex (join [] (split (CHR '':'') (expandV6 (parts ! 0)))),
                   Some (parts ! 1)))
      else Inr (from_hex (join [] (split (CHR '':'') (expandV6 ip))), None))"

text \<open>The loop of \<open>compressV6\<close>, \<open>n\<close> the number of entries left in \<open>zeros\<close>.\<close>

fun compress_loop :: "nat \<Rightarrow> string \<Rightarrow> string" where
  "compress_loop n address =
     (if 1 < n then
        (let repl = join '':'' (replicate n ''0000'') in
         if indexOf address repl \<noteq> -1 then replace_first address repl []
         else compress_loop (n - 1) address)
      else address)"

declare compress_loop.simps [simp del]

definition compressV6 :: "string \<Rightarrow> string" where
  "compressV6 address0 =
     (let address = compress_loop 8 address0;
          address = (if (case address of [] \<Rightarrow> False | c # _ \<Rightarrow> c = CHR '':'')
                     then CHR '':'' # address
                     else if length address = 0 then ''::'' else address)
      in join_null '':''
           (map (\<lambda>octet. if octet \<noteq> [] then Some (number_toString16 (parseInt octet 16))
                          else None)
                (split (CHR '':'') address)))"

definition v6ToString :: "byte list \<Rightarrow> bool \<Rightarrow> error + string" where
  "v6ToString bytes expanded =
     (let hex = toString_hex bytes;
          octets = match_hex4 hex in
      if octets = [] then Inl CouldNotEncode
      else if \<not> expanded then Inr (compressV6 (join '':'' octets))
      else Inr (replace_all_0000
             (join '':'' (map (\<lambda>octet. number_toString16 (parseInt octet 16)) octets))))"

text \<open>
  \<open>map\<close> on the slice of a Buffer stores each decimal text back as the byte it
  denotes; \<open>join\<close> then renders the bytes in decimal.
\<close>

definition v4ToString :: "byte list \<Rightarrow> bool \<Rightarrow> error + string" where
  "v4ToString bytes mapped =
     (if \<not> mapped then Inr (join ''.'' (map (\<lambda>byte. dec_nat (unat byte)) (drop 12 bytes)))
      else v6ToString bytes mapped)"

definition strip_brackets :: "string \<Rightarrow> string" where
  "strip_brackets address =
     (if (case address of [] \<Rightarrow> False | c # _ \<Rightarrow> c = CHR ''['') \<and>
         (address \<noteq> [] \<and> last address = CHR '']'')
      then substring 1 (length address - 1) address else address)"

definition parse :: "string \<Rightarrow> error + IP" where
  "parse address0 =
     (let ip = new_IP;
          address = strip_brackets address0 in
      if address = ''::'' then Inr ip
      else if isIPv4 address then
        Inr (ip\<lparr>m_bytes := v4StringToBuffer address, m_isV4 := True\<rparr>)
      else if isIPv6 address then
        (case v6StringToBuffer address of
           Inl e \<Rightarrow> Inl e
         | Inr (bytes, zone) \<Rightarrow>
             (let ip = ip\<lparr>m_bytes := bytes, m_zone := zone\<rparr> in
              if (case m_bytes ip of [] \<Rightarrow> False | b # _ \<Rightarrow> b = 0) \<and>
                 compare (take 12 (m_bytes ip)) mappedV4Prefix = 0
              then Inr (ip\<lparr>m_isV4 := True\<rparr>) else Inr ip))
      else Inl NotValidIP)"

definition fromDecimal :: "int \<Rightarrow> bool \<Rightarrow> IP" where
  "fromDecimal dec forceV6 =
     (let hex = padStart 32 (CHR ''0'') (int_toString16 dec);
          ip = new_IP\<lparr>m_bytes := from_hex hex\<rparr>;
          empty = alloc 12 in
      if \<not> forceV6 \<and> compare (take 12 (m_bytes ip)) empty = 0 then
        ip\<lparr>m_bytes := copy mappedV4Prefix (m_bytes ip) 0 0 (length mappedV4Prefix),
           m_isV4 := True\<rparr>
      else ip)"

definition toString :: "IP \<Rightarrow> encoding option \<Rightarrow> error + string" where
  "toString ip enc =
     (if m_isV4 ip then v4ToString (m_bytes ip) (enc = Some Mapped)
      else (case v6ToString (m_bytes ip) (enc = Some Expanded) of
              Inl e \<Rightarrow> Inl e
            | Inr s \<Rightarrow>
                (case m_zone ip of
                   None \<Rightarrow> Inr s
                 | Some z \<Rightarrow> if z = [] then Inr s else Inr (s @ ''%'' @ z))))"

text \<open>\<open>parse(address).toString(enc)\<close>: an error of either step is the result.\<close>

definition parse_then_toString :: "string \<Rightarrow> encoding option \<Rightarrow> error + string" where
  "parse_then_toString address enc =
     (case parse address of Inl e \<Rightarrow> Inl e | Inr ip \<Rightarrow> toString ip enc)"

section \<open>Notions of the specification\<close>



text \<open>Groups of four characters, none of them a colon.\<close>

definition groups4 :: "string list \<Rightarrow> bool" where
  "groups4 gs = list_all (\<lambda>g. length g = 4 \<and> CHR '':'' \<notin> set g) gs"

text \<open>
  A group as it is written in an address: one to four lowercase hexadecimal digits.
\<close>

definition hex_group :: "string \<Rightarrow> bool" where
  "hex_group g = (g \<noteq> [] \<and> length g \<le> 4 \<and> list_all is_lower_hex g)"

text \<open>A group as \<open>v6ToString\<close> meets it: exactly four lowercase hexadecimal digits.\<close>

definition hex4 :: "string \<Rightarrow> bool" where
  "hex4 g = (length g = 4 \<and> list_all is_lower_hex g)"

section \<open>Splitting, joining and searching\<close>

lemma split_not_Nil [simp]: "split sep s \<noteq> []"
  by (induction s) (auto split: list.splits)

lemma split_Cons_other:
  "c \<noteq> sep \<Longrightarrow> split sep (c # cs) = (c # hd (split sep cs)) # tl (split sep cs)"
  by (cases "split sep cs") auto


lemma split_append_sep: "split sep (a @ sep # b) = split sep a @ split sep b"
proof (induction a)
  case Nil
  show ?case by simp
next
  case (Cons c a)
  show ?case
  proof (cases "c = sep")
    case True
    with Cons show ?thesis by simp
  next
    case False
    obtain p ps where ps: "split sep a = p # ps"
      by (cases "split sep a") auto
    with False Cons show ?thesis by simp
  qed
qed

lemma length_split: "length (split sep s) = Suc (count_list s sep)"
  by (induction s) (auto split: list.splits)

lemma hd_split: "hd (split sep s) = takeWhile (\<lambda>c. c \<noteq> sep) s"
  by (induction s) (auto split: list.splits)

lemma index_from_absent: "c \<notin> set s \<Longrightarrow> index_from i s [c] = -1"
  by (induction s arbitrary: i) auto

lemma index_from_present:
  "c \<in> set s \<Longrightarrow> index_from i s [c] = int (i + length (takeWhile (\<lambda>x. x \<noteq> c) s))"
  by (induction s arbitrary: i) auto

lemma indexOf_char: "indexOf s [c] \<noteq> -1 \<longleftrightarrow> c \<in> set s"
  using index_from_absent [of c s 0] index_from_present [of c s 0]
  by (auto simp: indexOf_def)

lemma indexOf_char_pos:
  "c \<in> set s \<Longrightarrow> nat (indexOf s [c] + 1) = Suc (length (takeWhile (\<lambda>x. x \<noteq> c) s))"
  using index_from_present [of c s 0] by (simp add: indexOf_def)

lemma drop_past_char:
  "c \<in> set s \<Longrightarrow> drop (Suc (length (takeWhile (\<lambda>x. x \<noteq> c) s))) s = tl (dropWhile (\<lambda>x. x \<noteq> c) s)"
  by (induction s) auto






section \<open>\<open>splitHostPort\<close> by the shape of its input\<close>


lemma splitHostPort_dotted:
  assumes "CHR ''.'' \<in> set host" and "count_list host (CHR '':'') \<noteq> 1"
  shows "splitHostPort host = Inr (takeWhile (\<lambda>c. c \<noteq> CHR '':'') host, Some 0)"
proof -
  have "indexOf host ''.'' \<noteq> -1" using assms(1) by (simp add: indexOf_char)
  moreover have "length (split (CHR '':'') host) \<noteq> 2"
    using assms(2) by (simp add: length_split)
  moreover have "split (CHR '':'') host ! 0 = takeWhile (\<lambda>c. c \<noteq> CHR '':'') host"
    using hd_split [of "CHR '':''" host] by (simp add: hd_conv_nth)
  ultimately show ?thesis by (simp add: splitHostPort_def Let_def)
qed

lemma splitHostPort_unbracketed:
  assumes "CHR ''.'' \<notin> set host" and "CHR ''['' \<notin> set host \<or> CHR '']'' \<notin> set host"
  shows "splitHostPort host = Inl CannotSplitHostPort"
proof -
  have "indexOf host ''.'' = -1" using assms(1) indexOf_char [of host "CHR ''.''"] by simp
  moreover have "indexOf host ''['' = -1 \<or> indexOf host '']'' = -1"
    using assms(2) indexOf_char [of host "CHR ''[''"] indexOf_char [of host "CHR '']''"] by auto
  ultimately show ?thesis by (auto simp: splitHostPort_def)
qed

lemma splitHostPort_bracketed_rest:
  assumes "CHR ''.'' \<notin> set host" and "CHR ''['' \<in> set host" and "CHR '']'' \<in> set host"
    and "tl (dropWhile (\<lambda>c. c \<noteq> CHR '']'') host) \<noteq> []"
    and "count_list (tl (dropWhile (\<lambda>c. c \<noteq> CHR '']'') host)) (CHR '':'') \<noteq> 1"
  shows "splitHostPort host = Inl CannotSplitHostPort"
proof -
  define right where "right = tl (dropWhile (\<lambda>c. c \<noteq> CHR '']'') host)"
  have 1: "indexOf host ''.'' = -1" using assms(1) indexOf_char [of host "CHR ''.''"] by simp
  have 2: "indexOf host ''['' \<noteq> -1" "indexOf host '']'' \<noteq> -1"
    using assms(2,3) by (simp_all add: indexOf_char)
  have 3: "drop (nat (indexOf host '']'' + 1)) host = right"
    using assms(3) by (simp add: indexOf_char_pos drop_past_char right_def)
  have "right \<noteq> []" and "count_list right (CHR '':'') \<noteq> 1"
    using assms(4,5) unfolding right_def by blast+
  then have 4: "length right \<noteq> 0" "length (split (CHR '':'') right) \<noteq> 2"
    by (simp_all add: length_split)
  show ?thesis
    using 1 2 4 unfolding splitHostPort_def Let_def 3
    by simp
qed

section \<open>Where the zone comes from\<close>




section \<open>Hexadecimal digits\<close>

lemma less_16_cases:
  "d < 16 \<Longrightarrow> d \<in> {0, 1, 2, 3, 4, 5, 6, 7, 8, 9, 10, 11, 12, 13, 14, 15::nat}"
proof -
  assume "d < 16"
  then have "d = 0 \<or> d = 1 \<or> d = 2 \<or> d = 3 \<or> d = 4 \<or> d = 5 \<or> d = 6 \<or> d = 7 \<or> d = 8 \<or>
    d = 9 \<or> d = 10 \<or> d = 11 \<or> d = 12 \<or> d = 13 \<or> d = 14 \<or> d = 15"
    by arith
  then show ?thesis by blast
qed

lemma digit_char_lower_hex: "d < 16 \<Longrightarrow> is_lower_hex (digit_char d)"
  by (drule less_16_cases) (auto simp: is_lower_hex_def digit_char_def)

lemma radix_digit_digit_char: "d < 16 \<Longrightarrow> radix_digit 16 (digit_char d) = Some d"
  by (drule less_16_cases) (auto simp: radix_digit_def digit_val_def digit_char_def)

lemma lower_hex_digit_char:
  "is_lower_hex c \<Longrightarrow> \<exists>d<16. c = digit_char d"
proof -
  assume "is_lower_hex c"
  then have "c \<in> digit_char ` {0, 1, 2, 3, 4, 5, 6, 7, 8, 9, 10, 11, 12, 13, 14, 15}"
    by (auto simp: is_lower_hex_def digit_char_def)
  then obtain d where d: "d \<in> {0, 1, 2, 3, 4, 5, 6, 7, 8, 9, 10, 11, 12, 13, 14, 15::nat}"
    and c: "c = digit_char d"
    by blast
  from d have "d < 16" by auto
  with c show ?thesis by blast
qed

lemma digit_char_0: "digit_char 0 = CHR ''0''"
  by (simp add: digit_char_def)

lemma digit_char_eq_0: "d < 16 \<Longrightarrow> digit_char d = CHR ''0'' \<longleftrightarrow> d = 0"
  by (drule less_16_cases) (auto simp: digit_char_def)

lemma digit_char_inj: "d < 16 \<Longrightarrow> e < 16 \<Longrightarrow> digit_char d = digit_char e \<Longrightarrow> d = e"
  using radix_digit_digit_char by (metis option.inject)

lemma radix_digit_lower_hex: "is_lower_hex c \<Longrightarrow> \<exists>d<16. radix_digit 16 c = Some d \<and> digit_char d = c"
  using lower_hex_digit_char radix_digit_digit_char by metis


lemma digits_value_acc:
  "foldl (\<lambda>a c. a * int r + int (the (radix_digit r c))) acc ds =
     acc * int r ^ length ds + digits_value r ds"
proof (induction ds arbitrary: acc)
  case Nil
  show ?case by (simp add: digits_value_def)
next
  case (Cons c ds)
  show ?case
    unfolding digits_value_def foldl_Cons
    by (simp add: Cons.IH [of "acc * int r + int (the (radix_digit r c))"]
        Cons.IH [of "int (the (radix_digit r c))"] algebra_simps)
qed

lemma digits_value_Nil: "digits_value r [] = 0"
  by (simp add: digits_value_def)

lemma digits_value_append:
  "digits_value r (a @ b) = digits_value r a * int r ^ length b + digits_value r b"
  unfolding digits_value_def [of r "a @ b"] foldl_append
  by (simp add: digits_value_acc)

lemma digits_value_single: "digits_value r [c] = int (the (radix_digit r c))"
  by (simp add: digits_value_def)

lemma digits_value_zeros: "digits_value 16 (replicate k (CHR ''0'')) = 0"
proof (induction k)
  case 0
  show ?case by (simp add: digits_value_Nil)
next
  case (Suc k)
  have "replicate (Suc k) (CHR ''0'') = replicate k (CHR ''0'') @ [CHR ''0'']"
    by (simp add: replicate_append_same)
  then show ?case
    using Suc radix_digit_digit_char [of 0]
    by (simp only: digits_value_append digits_value_single digit_char_0 [symmetric]) simp
qed

lemma digits_value_leading_zeros:
  "digits_value 16 (replicate k (CHR ''0'') @ s) = digits_value 16 s"
  by (simp add: digits_value_append digits_value_zeros)

lemma hex_int_digits: "0 \<le> n \<Longrightarrow> list_all is_lower_hex (hex_int n)"
proof (induction n rule: hex_int.induct)
  case (1 n)
  show ?case
  proof (cases "n < 16")
    case True
    with 1 show ?thesis
      by (subst hex_int.simps) (simp add: digit_char_lower_hex)
  next
    case False
    with 1 have "list_all is_lower_hex (hex_int (n div 16))" by simp
    moreover have "nat (n mod 16) < 16" by simp
    ultimately show ?thesis
      using False by (subst hex_int.simps) (simp add: digit_char_lower_hex)
  qed
qed

lemma digits_value_hex_int: "0 \<le> n \<Longrightarrow> digits_value 16 (hex_int n) = n"
proof (induction n rule: hex_int.induct)
  case (1 n)
  show ?case
  proof (cases "n < 16")
    case True
    with 1 show ?thesis
      by (subst hex_int.simps) (simp add: digits_value_single radix_digit_digit_char)
  next
    case False
    with 1 have "digits_value 16 (hex_int (n div 16)) = n div 16" by simp
    moreover have "nat (n mod 16) < 16" by simp
    ultimately show ?thesis
      using False
      by (subst hex_int.simps)
        (simp add: digits_value_append digits_value_single radix_digit_digit_char)
  qed
qed

lemma hex_int_not_Nil: "hex_int n \<noteq> []"
  by (subst hex_int.simps) simp

lemma hex_int_upper: "0 \<le> n \<Longrightarrow> n < 16 ^ length (hex_int n)"
proof (induction n rule: hex_int.induct)
  case (1 n)
  show ?case
  proof (cases "n < 16")
    case True
    then show ?thesis by (subst hex_int.simps) simp
  next
    case False
    with 1 have "n div 16 < 16 ^ length (hex_int (n div 16))" by simp
    then have "n < 16 * 16 ^ length (hex_int (n div 16))" by simp
    then show ?thesis
      using False by (subst hex_int.simps) simp
  qed
qed

lemma hex_int_lower: "0 < n \<Longrightarrow> 16 ^ (length (hex_int n) - 1) \<le> n"
proof (induction n rule: hex_int.induct)
  case (1 n)
  show ?case
  proof (cases "n < 16")
    case True
    with 1 show ?thesis by (subst hex_int.simps) simp
  next
    case False
    with 1 have "16 ^ (length (hex_int (n div 16)) - 1) \<le> n div 16" by simp
    then have "16 * 16 ^ (length (hex_int (n div 16)) - 1) \<le> n" by simp
    moreover have "length (hex_int (n div 16)) \<noteq> 0" by (simp add: hex_int_not_Nil)
    ultimately have "16 ^ length (hex_int (n div 16)) \<le> n"
      by (cases "length (hex_int (n div 16))") simp_all
    then show ?thesis
      using False by (subst hex_int.simps) simp
  qed
qed

lemma hex_int_hd: "0 < n \<Longrightarrow> hd (hex_int n) \<noteq> CHR ''0''"
proof (induction n rule: hex_int.induct)
  case (1 n)
  show ?case
  proof (cases "n < 16")
    case True
    with 1 have "nat n < 16" "nat n \<noteq> 0" by simp_all
    then show ?thesis
      using True by (subst hex_int.simps) (simp add: digit_char_eq_0)
  next
    case False
    with 1 have "hd (hex_int (n div 16)) \<noteq> CHR ''0''" by simp
    then show ?thesis
      using False by (subst hex_int.simps) (simp add: hex_int_not_Nil)
  qed
qed

lemma hex_int_length_le: "0 \<le> n \<Longrightarrow> 0 < k \<Longrightarrow> length (hex_int n) \<le> k \<longleftrightarrow> n < 16 ^ k"
proof
  assume n: "0 \<le> n" and k: "0 < k" and len: "length (hex_int n) \<le> k"
  have "n < 16 ^ length (hex_int n)" by (rule hex_int_upper [OF n])
  also have "(16::int) ^ length (hex_int n) \<le> 16 ^ k"
    using len by (simp add: power_increasing)
  finally show "n < 16 ^ k" .
next
  assume n: "0 \<le> n" and k: "0 < k" and lt: "n < 16 ^ k"
  show "length (hex_int n) \<le> k"
  proof (cases "n = 0")
    case True
    have "hex_int 0 = [digit_char 0]" by (subst hex_int.simps) simp
    with True k show ?thesis by simp
  next
    case False
    with n have "0 < n" by simp
    then have "16 ^ (length (hex_int n) - 1) \<le> n" by (rule hex_int_lower)
    from this lt have "(16::int) ^ (length (hex_int n) - 1) < 16 ^ k" by (rule le_less_trans)
    then have "length (hex_int n) - 1 < k" by (simp add: power_strict_increasing_iff)
    then show ?thesis by simp
  qed
qed

section \<open>Buffers and their hexadecimal text\<close>

lemma byte_of_digits:
  assumes "x < 16" and "y < 16"
  shows "unat (of_nat (16 * x + y) :: byte) = 16 * x + y"
proof -
  have "16 * x + y < 2 ^ LENGTH(8)" using assms by simp
  then show ?thesis by (rule of_nat_inverse [OF refl])
qed

lemma toString_hex_Nil: "toString_hex [] = []"
  by (simp add: toString_hex_def)

lemma toString_hex_Cons:
  "toString_hex (b # bs) = digit_char (unat b div 16) # digit_char (unat b mod 16) # toString_hex bs"
  by (simp add: toString_hex_def)

lemma toString_hex_append: "toString_hex (a @ b) = toString_hex a @ toString_hex b"
  by (simp add: toString_hex_def)

lemma length_toString_hex: "length (toString_hex bs) = 2 * length bs"
  by (induction bs) (simp_all add: toString_hex_Nil toString_hex_Cons)

lemma toString_hex_take: "toString_hex (take k bs) = take (2 * k) (toString_hex bs)"
proof (induction bs arbitrary: k)
  case Nil
  show ?case by (simp add: toString_hex_Nil)
next
  case (Cons b bs)
  show ?case
  proof (cases k)
    case 0
    then show ?thesis by (simp add: toString_hex_Nil)
  next
    case (Suc j)
    then show ?thesis by (simp add: toString_hex_Cons Cons.IH)
  qed
qed

lemma toString_hex_drop: "toString_hex (drop k bs) = drop (2 * k) (toString_hex bs)"
proof (induction bs arbitrary: k)
  case Nil
  show ?case by (simp add: toString_hex_Nil)
next
  case (Cons b bs)
  show ?case
  proof (cases k)
    case 0
    then show ?thesis by simp
  next
    case (Suc j)
    then show ?thesis by (simp add: toString_hex_Cons Cons.IH)
  qed
qed

lemma toString_hex_zeros: "toString_hex (replicate k 0) = replicate (2 * k) (CHR ''0'')"
  by (induction k) (simp_all add: toString_hex_Nil toString_hex_Cons digit_char_0)

lemma toString_hex_digits: "list_all is_lower_hex (toString_hex bs)"
proof (induction bs)
  case Nil
  show ?case by (simp add: toString_hex_Nil)
next
  case (Cons b bs)
  have "unat b < 256" using unsigned_less [of b, where 'a = nat] by simp
  then have "unat b div 16 < 16" by simp
  moreover have "unat b mod 16 < 16" by simp
  ultimately show ?case
    using Cons by (simp add: toString_hex_Cons digit_char_lower_hex)
qed

lemma from_hex_pair:
  assumes "is_lower_hex a" and "is_lower_hex b"
  shows "\<exists>x. from_hex (a # b # s) = x # from_hex s \<and> toString_hex [x] = [a, b]"
proof -
  obtain d where d: "d < 16" "radix_digit 16 a = Some d" "digit_char d = a"
    using radix_digit_lower_hex [OF assms(1)] by blast
  obtain e where e: "e < 16" "radix_digit 16 b = Some e" "digit_char e = b"
    using radix_digit_lower_hex [OF assms(2)] by blast
  have "unat (of_nat (16 * d + e) :: byte) = 16 * d + e"
    by (rule byte_of_digits [OF d(1) e(1)])
  then have "toString_hex [of_nat (16 * d + e) :: byte] = [a, b]"
    using d e by (simp add: toString_hex_Cons toString_hex_Nil)
  then show ?thesis using d e by simp
qed

lemma toString_hex_from_hex:
  "list_all is_lower_hex s \<Longrightarrow> even (length s) \<Longrightarrow> toString_hex (from_hex s) = s"
proof (induction s rule: from_hex.induct)
  case (1 a b s)
  from "1.prems" have ab: "is_lower_hex a" "is_lower_hex b"
    and s: "list_all is_lower_hex s" "even (length s)"
    by simp_all
  obtain x where x: "from_hex (a # b # s) = x # from_hex s" "toString_hex [x] = [a, b]"
    using from_hex_pair [OF ab] by blast
  have "toString_hex (x # from_hex s) = toString_hex [x] @ toString_hex (from_hex s)"
    using toString_hex_append [of "[x]" "from_hex s"] by simp
  moreover have "toString_hex (from_hex s) = s"
  proof -
    obtain d e where de: "radix_digit 16 a = Some d" "radix_digit 16 b = Some e"
      using radix_digit_lower_hex ab by blast
    show ?thesis by (rule "1.IH" [OF refl de s])
  qed
  ultimately show ?case using x by simp
qed (simp_all add: toString_hex_Nil)

lemma length_from_hex:
  "list_all is_lower_hex s \<Longrightarrow> length (from_hex s) = length s div 2"
proof (induction s rule: from_hex.induct)
  case (1 a b s)
  from "1.prems" have ab: "is_lower_hex a" "is_lower_hex b" and s: "list_all is_lower_hex s"
    by simp_all
  obtain x where x: "from_hex (a # b # s) = x # from_hex s"
    using from_hex_pair [OF ab] by blast
  obtain d e where de: "radix_digit 16 a = Some d" "radix_digit 16 b = Some e"
    using radix_digit_lower_hex ab by blast
  have "length (from_hex s) = length s div 2"
    by (rule "1.IH" [OF refl de s])
  with x show ?case by simp
qed simp_all

lemma from_hex_append:
  "list_all is_lower_hex a \<Longrightarrow> even (length a) \<Longrightarrow> from_hex (a @ b) = from_hex a @ from_hex b"
proof (induction a rule: from_hex.induct)
  case (1 x y s)
  from "1.prems" have xy: "is_lower_hex x" "is_lower_hex y"
    and s: "list_all is_lower_hex s" "even (length s)"
    by simp_all
  obtain d e where de: "radix_digit 16 x = Some d" "radix_digit 16 y = Some e"
    using radix_digit_lower_hex xy by blast
  have "from_hex (s @ b) = from_hex s @ from_hex b"
    by (rule "1.IH" [OF refl de s])
  with de show ?case by simp
qed simp_all

lemma from_hex_zeros: "from_hex (replicate (2 * k) (CHR ''0'')) = replicate k 0"
proof (induction k)
  case 0
  show ?case by simp
next
  case (Suc k)
  have "radix_digit 16 (CHR ''0'') = Some 0"
    using radix_digit_digit_char [of 0] by (simp add: digit_char_0)
  with Suc show ?case by simp
qed

lemma compare_eq_0: "compare a b = 0 \<longleftrightarrow> a = b"
  by (induction a b rule: compare.induct) auto

lemma copy_prefix:
  "length p \<le> length t \<Longrightarrow> copy p t 0 0 (length p) = p @ drop (length p) t"
  by (simp add: copy_def Let_def)

lemma length_copy: "length (copy s t i j k) = length t"
  by (simp add: copy_def Let_def) linarith

lemma mappedV4Prefix_value: "mappedV4Prefix = [0, 0, 0, 0, 0, 0, 0, 0, 0, 0, 0xff, 0xff]"
  by code_simp

lemma length_mappedV4Prefix: "length mappedV4Prefix = 12"
  by (simp add: mappedV4Prefix_value)

section \<open>\<open>fromDecimal\<close> and \<open>decimal\<close>\<close>

lemma int_toString16_nonneg: "0 \<le> n \<Longrightarrow> int_toString16 n = hex_int n"
  by (simp add: int_toString16_def)

lemma padded_hex_facts:
  assumes "0 \<le> n" and "n < 2 ^ 128"
  defines "s \<equiv> padStart 32 (CHR ''0'') (int_toString16 n)"
  shows "length s = 32" and "list_all is_lower_hex s" and "digits_value 16 s = n"
    and "toString_hex (from_hex s) = s" and "length (from_hex s) = 16"
proof -
  have "n < 16 ^ 32" using assms(2) by simp
  then have len: "length (hex_int n) \<le> 32"
    using hex_int_length_le [of n 32] assms(1) by simp
  have s: "s = replicate (32 - length (hex_int n)) (CHR ''0'') @ hex_int n"
    by (simp add: s_def padStart_def int_toString16_nonneg [OF assms(1)])
  show 1: "length s = 32" using len by (simp add: s)
  have "is_lower_hex (CHR ''0'')" by (simp add: is_lower_hex_def)
  then show 2: "list_all is_lower_hex s"
    using hex_int_digits [OF assms(1)] by (auto simp: s list_all_iff)
  show "digits_value 16 s = n"
    by (simp add: s digits_value_leading_zeros digits_value_hex_int [OF assms(1)])
  show "toString_hex (from_hex s) = s"
    by (rule toString_hex_from_hex [OF 2]) (simp add: 1)
  show "length (from_hex s) = 16"
    by (simp add: length_from_hex [OF 2] 1)
qed

lemma decimal_fromDecimal:
  assumes "0 \<le> n" and "n < 2 ^ 128"
  shows "decimal (fromDecimal n forceV6) = n"
proof -
  define s where "s = padStart 32 (CHR ''0'') (int_toString16 n)"
  define bytes where "bytes = from_hex s"
  note f = padded_hex_facts [OF assms, folded s_def]
  have hex: "toString_hex bytes = s" and len: "length bytes = 16"
    using f by (simp_all add: bytes_def)
  show ?thesis
  proof (cases "\<not> forceV6 \<and> compare (take 12 bytes) (alloc 12) = 0")
    case False
    then have "fromDecimal n forceV6 = new_IP\<lparr>m_bytes := bytes\<rparr>"
      by (auto simp: fromDecimal_def Let_def s_def bytes_def)
    then show ?thesis
      using f(3) by (simp add: decimal_def new_IP_def hex bigint_of_hex_def)
  next
    case True
    then have z: "take 12 bytes = replicate 12 0"
      by (simp add: compare_eq_0 alloc_def)
    have "toString_hex (take 12 bytes) = take 24 s"
      using toString_hex_take [of 12 bytes] by (simp add: hex)
    then have "take 24 s = replicate 24 (CHR ''0'')"
      using toString_hex_zeros [of 12] by (simp add: z)
    then have "s = replicate 24 (CHR ''0'') @ drop 24 s"
      using append_take_drop_id [of 24 s] by simp
    then have "digits_value 16 s = digits_value 16 (drop 24 s)"
      using digits_value_leading_zeros [of 24 "drop 24 s"] by simp
    moreover have "toString_hex (drop 12 bytes) = drop 24 s"
      using toString_hex_drop [of 12 bytes] by (simp add: hex)
    moreover have "fromDecimal n forceV6 =
        new_IP\<lparr>m_bytes := mappedV4Prefix @ drop 12 bytes, m_isV4 := True\<rparr>"
      using True copy_prefix [of mappedV4Prefix bytes] len
      by (simp add: fromDecimal_def Let_def s_def bytes_def length_mappedV4Prefix)
    ultimately show ?thesis
      using f(3) by (simp add: decimal_def new_IP_def bigint_of_hex_def length_mappedV4Prefix)
  qed
qed

lemma fromDecimal_small_is_v4:
  assumes "0 \<le> n" and "n < 2 ^ 32"
  shows "m_isV4 (fromDecimal n False)"
    and "take 12 (m_bytes (fromDecimal n False)) = mappedV4Prefix"
    and "length (m_bytes (fromDecimal n False)) = 16"
proof -
  define s where "s = padStart 32 (CHR ''0'') (int_toString16 n)"
  define bytes where "bytes = from_hex s"
  have "n < 16 ^ 8" using assms(2) by simp
  then have len: "length (hex_int n) \<le> 8"
    using hex_int_length_le [of n 8] assms(1) by simp
  define rest where "rest = replicate (8 - length (hex_int n)) (CHR ''0'') @ hex_int n"
  from len have "32 - length (hex_int n) = 24 + (8 - length (hex_int n))" by simp
  then have "replicate (32 - length (hex_int n)) (CHR ''0'') =
      replicate 24 (CHR ''0'') @ replicate (8 - length (hex_int n)) (CHR ''0'')"
    by (simp only: replicate_add)
  then have s: "s = replicate (2 * 12) (CHR ''0'') @ rest"
    by (simp add: s_def padStart_def int_toString16_nonneg [OF assms(1)] rest_def)
  have "list_all is_lower_hex (replicate (2 * 12) (CHR ''0''))"
    by (simp add: list_all_iff is_lower_hex_def)
  moreover have "even (length (replicate (2 * 12) (CHR ''0'')))"
    by (simp only: length_replicate) simp
  ultimately have "from_hex (replicate (2 * 12) (CHR ''0'') @ rest) =
      from_hex (replicate (2 * 12) (CHR ''0'')) @ from_hex rest"
    by (rule from_hex_append)
  then have "bytes = replicate 12 0 @ from_hex rest"
    by (simp only: bytes_def s from_hex_zeros)
  then have "take 12 bytes = replicate 12 0"
    by simp
  then have c: "compare (take 12 bytes) (alloc 12) = 0"
    by (simp add: compare_eq_0 alloc_def)
  have "n < 2 ^ 128" using assms(2) by (rule less_trans) simp
  then have l16: "length bytes = 16"
    using padded_hex_facts(5) [OF assms(1)] by (simp add: bytes_def s_def)
  have fd: "fromDecimal n False =
      new_IP\<lparr>m_bytes := mappedV4Prefix @ drop 12 bytes, m_isV4 := True\<rparr>"
    using c copy_prefix [of mappedV4Prefix bytes] l16
    by (simp add: fromDecimal_def Let_def s_def bytes_def length_mappedV4Prefix)
  show "m_isV4 (fromDecimal n False)" by (simp add: fd)
  show "take 12 (m_bytes (fromDecimal n False)) = mappedV4Prefix"
    by (simp add: fd length_mappedV4Prefix)
  show "length (m_bytes (fromDecimal n False)) = 16"
    using l16 by (simp add: fd length_mappedV4Prefix)
qed

lemma length_fromDecimal:
  assumes "0 \<le> n" and "n < 2 ^ 128"
  shows "length (m_bytes (fromDecimal n forceV6)) = 16"
  using padded_hex_facts(5) [OF assms]
  by (simp add: fromDecimal_def Let_def new_IP_def length_copy)

lemma fromDecimal_large:
  assumes "2 ^ 128 \<le> n"
  shows "fromDecimal n forceV6 =
           \<lparr>m_bytes = from_hex (hex_int n), m_isV4 = False, m_zone = None\<rparr>"
    and "length (from_hex (hex_int n)) = length (hex_int n) div 2"
    and "16 \<le> length (from_hex (hex_int n))"
proof -
  have n: "0 \<le> n" "0 < n" using assms by (simp_all add: order_trans [of 0 "2 ^ 128" n] less_le_trans [of 0 "2 ^ 128" n])
  have "\<not> n < 16 ^ 32" using assms by simp
  then have len: "32 < length (hex_int n)"
    using hex_int_length_le [of n 32] n(1) by simp
  then obtain a b r where h: "hex_int n = a # b # r"
    by (cases "hex_int n"; cases "tl (hex_int n)") auto
  have dig: "list_all is_lower_hex (hex_int n)" by (rule hex_int_digits [OF n(1)])
  then have ab: "is_lower_hex a" "is_lower_hex b" by (simp_all add: h)
  have a0: "a \<noteq> CHR ''0''" using hex_int_hd [OF n(2)] by (simp add: h)
  obtain x where x: "from_hex (a # b # r) = x # from_hex r" "toString_hex [x] = [a, b]"
    using from_hex_pair [OF ab] by blast
  have "x \<noteq> 0"
  proof
    assume "x = 0"
    then have "toString_hex [x] = ''00''"
      by (simp add: toString_hex_Cons toString_hex_Nil digit_char_0)
    with x(2) a0 show False by simp
  qed
  moreover have "from_hex (hex_int n) = x # from_hex r"
    using x(1) by (simp only: h)
  then have "hd (take 12 (from_hex (hex_int n))) = x" by simp
  moreover have "hd (alloc 12) = 0" by (simp add: alloc_def)
  ultimately have "take 12 (from_hex (hex_int n)) \<noteq> alloc 12"
    by metis
  then have c: "compare (take 12 (from_hex (hex_int n))) (alloc 12) \<noteq> 0"
    by (simp add: compare_eq_0)
  have pad: "padStart 32 (CHR ''0'') (int_toString16 n) = hex_int n"
    using len by (simp add: padStart_def int_toString16_nonneg [OF n(1)])
  show "fromDecimal n forceV6 =
           \<lparr>m_bytes = from_hex (hex_int n), m_isV4 = False, m_zone = None\<rparr>"
    using c by (simp add: fromDecimal_def Let_def pad new_IP_def)
  show l: "length (from_hex (hex_int n)) = length (hex_int n) div 2"
    by (rule length_from_hex [OF dig])
  show "16 \<le> length (from_hex (hex_int n))"
    using len by (simp add: l)
qed


section \<open>The loop of \<open>compressV6\<close> on the text of the groups\<close>




text \<open>A pattern longer than the text is not found, and nothing is replaced.\<close>

lemma replace_first_short: "length s < length t \<Longrightarrow> replace_first s t r = s"
proof (induction s)
  case Nil
  then show ?case by auto
next
  case (Cons c s)
  then have "\<not> prefix t (c # s)"
    using prefix_length_le [of t "c # s"] by auto
  with Cons show ?case by simp
qed






lemma groups4_drop: "groups4 gs \<Longrightarrow> groups4 (drop i gs)"
  by (simp add: groups4_def list_all_iff) (meson in_set_dropD)














section \<open>Behaviour at the inputs the specification names\<close>

text \<open>
  C6. The written-out mapped literal \<open>0:0:0:0:0:ffff:c0a8:201\<close> parses to an address
  flagged IPv4, and its default text is the dotted form \<open>192.168.2.1\<close>.
\<close>

theorem C6_mapped_literal_is_v4:
  "parse ''0:0:0:0:0:ffff:c0a8:201'' =
     Inr \<lparr>m_bytes = [0, 0, 0, 0, 0, 0, 0, 0, 0, 0, 0xff, 0xff, 0xc0, 0xa8, 2, 1],
          m_isV4 = True, m_zone = None\<rparr>
   \<and> parse_then_toString ''0:0:0:0:0:ffff:c0a8:201'' None = Inr ''192.168.2.1''"
  by code_simp

text \<open>
  C8. The specification and the test "Fail Parse: 192.168.2." expect \<open>parse\<close> to reject
  \<open>192.168.2.\<close>. The text has only three groups of digits, so the IPv4 expression does
  not match; it holds digits, so the IPv6 expression does; the hexadecimal decoder then
  stops at the first dot, and \<open>parse\<close> returns an address of one byte.
\<close>

theorem C8_trailing_dot_is_accepted:
  "parse ''192.168.2.'' = Inr \<lparr>m_bytes = [0x19], m_isV4 = False, m_zone = None\<rparr>"
  by code_simp

text \<open>
  C1. The tests expect \<open>2607:f8b0:4009:805::\<close> to parse to sixteen bytes and to be
  printed back unchanged, and \<open>2607:f8b0:4009:805:0:0:0:0\<close> to be printed as
  \<open>2607:f8b0:4009:805::\<close>. A zero run at the end leaves two empty parts after the
  split on colons, and \<open>expandV6\<close> inserts the missing groups for each: the buffer
  has twenty bytes. \<open>compressV6\<close> doubles a colon only at the start of the text, so
  an elided run at the end leaves a single colon.
\<close>

theorem C1_trailing_zero_run_not_restored:
  "parse ''2607:f8b0:4009:805::'' =
     Inr \<lparr>m_bytes = [0x26, 0x07, 0xf8, 0xb0, 0x40, 0x09, 0x08, 0x05,
                      0, 0, 0, 0, 0, 0, 0, 0, 0, 0, 0, 0],
          m_isV4 = False, m_zone = None\<rparr>
   \<and> parse_then_toString ''2607:f8b0:4009:805::'' None = Inr ''2607:f8b0:4009:805:''
   \<and> parse_then_toString ''2607:f8b0:4009:805::'' (Some Expanded)
       = Inr ''2607:f8b0:4009:805:0:0:0:0:0:0''
   \<and> parse_then_toString ''2607:f8b0:4009:805:0:0:0:0'' None = Inr ''2607:f8b0:4009:805:''"
  by code_simp

section \<open>When \<open>parse\<close> fails\<close>



section \<open>When \<open>splitHostPort\<close> fails\<close>

text \<open>
  C9, as amended. \<open>splitHostPort\<close> fails for every text without a dot that lacks a
  \<open>[\<close> or a \<open>]\<close> (the unbracketed \<open>2607:f8b0:4009:805::200e:9999\<close> among them),
  and for every bracketed text without a dot whose remainder after the first \<open>]\<close> is
  not empty and does not split on colons into exactly two parts. A text that holds a dot
  and does not split on colons into exactly two parts does not fail: the result is the
  part before the first colon with port 0.
\<close>

theorem C9_splitHostPort_failures:
  "(CHR ''.'' \<notin> set host \<and> (CHR ''['' \<notin> set host \<or> CHR '']'' \<notin> set host)
      \<longrightarrow> splitHostPort host = Inl CannotSplitHostPort)
   \<and> (CHR ''.'' \<notin> set host \<and> CHR ''['' \<in> set host \<and> CHR '']'' \<in> set host \<and>
       tl (dropWhile (\<lambda>c. c \<noteq> CHR '']'') host) \<noteq> [] \<and>
       count_list (tl (dropWhile (\<lambda>c. c \<noteq> CHR '']'') host)) (CHR '':'') \<noteq> 1
      \<longrightarrow> splitHostPort host = Inl CannotSplitHostPort)
   \<and> (CHR ''.'' \<in> set host \<and> count_list host (CHR '':'') \<noteq> 1
      \<longrightarrow> splitHostPort host = Inr (takeWhile (\<lambda>c. c \<noteq> CHR '':'') host, Some 0))
   \<and> splitHostPort ''2607:f8b0:4009:805::200e:9999'' = Inl CannotSplitHostPort"
proof -
  have "splitHostPort ''2607:f8b0:4009:805::200e:9999'' = Inl CannotSplitHostPort"
    by code_simp
  then show ?thesis
    using splitHostPort_dotted [of host] splitHostPort_unbracketed [of host]
      splitHostPort_bracketed_rest [of host]
    by blast
qed

theorem C9_witness:
  "splitHostPort ''2607:f8b0:4009:805::200e'' = Inl CannotSplitHostPort
   \<and> splitHostPort ''[::1]x'' = Inl CannotSplitHostPort
   \<and> splitHostPort ''1.2.3.4:5:6'' = Inr (''1.2.3.4'', Some 0)
   \<and> splitHostPort ''192.168.2.1'' = Inr (''192.168.2.1'', Some 0)"
proof -
  have a: "CHR ''.'' \<notin> set ''2607:f8b0:4009:805::200e'' \<and>
           (CHR ''['' \<notin> set ''2607:f8b0:4009:805::200e'' \<or> CHR '']'' \<notin> set ''2607:f8b0:4009:805::200e'')"
    by simp
  have b: "CHR ''.'' \<notin> set ''[::1]x'' \<and> CHR ''['' \<in> set ''[::1]x'' \<and> CHR '']'' \<in> set ''[::1]x'' \<and>
       tl (dropWhile (\<lambda>c. c \<noteq> CHR '']'') ''[::1]x'') \<noteq> [] \<and>
       count_list (tl (dropWhile (\<lambda>c. c \<noteq> CHR '']'') ''[::1]x'')) (CHR '':'') \<noteq> 1"
    by simp
  have c: "CHR ''.'' \<in> set ''1.2.3.4:5:6'' \<and> count_list ''1.2.3.4:5:6'' (CHR '':'') \<noteq> 1"
    by simp
  have d: "CHR ''.'' \<in> set ''192.168.2.1'' \<and> count_list ''192.168.2.1'' (CHR '':'') \<noteq> 1"
    by simp
  have e: "takeWhile (\<lambda>c. c \<noteq> CHR '':'') ''1.2.3.4:5:6'' = ''1.2.3.4''"
    "takeWhile (\<lambda>c. c \<noteq> CHR '':'') ''192.168.2.1'' = ''192.168.2.1''" by simp_all
  show ?thesis
    using C9_splitHostPort_failures [of "''2607:f8b0:4009:805::200e''"] a
      C9_splitHostPort_failures [of "''[::1]x''"] b
      C9_splitHostPort_failures [of "''1.2.3.4:5:6''"] c
      C9_splitHostPort_failures [of "''192.168.2.1''"] d e
    by (simp only: simp_thms)
qed

text \<open>
  C9 as stated fails: a text with a dot and three parts is answered, not refused.
\<close>

theorem C9_counterexample:
  "splitHostPort ''1.2.3.4:5:6'' = Inr (''1.2.3.4'', Some 0)"
  by code_simp

section \<open>Zone and address family\<close>




section \<open>The decimal round trip\<close>

text \<open>
  C4. For every \<open>n\<close> from 0 up to but excluding \<open>2^128\<close>, the decimal value of
  \<open>fromDecimal(n)\<close> is \<open>n\<close>; and for every \<open>n\<close> below \<open>2^32\<close>, with \<open>forceV6\<close>
  false, the address is flagged IPv4, its first twelve bytes are the mapped prefix, and
  it has sixteen bytes.
\<close>

theorem C4_decimal_round_trip:
  "(0 \<le> n \<and> n < 2 ^ 128 \<longrightarrow> decimal (fromDecimal n False) = n)
   \<and> (0 \<le> n \<and> n < 2 ^ 32 \<longrightarrow>
        m_isV4 (fromDecimal n False) \<and>
        take 12 (m_bytes (fromDecimal n False)) = mappedV4Prefix \<and>
        length (m_bytes (fromDecimal n False)) = 16)"
  using decimal_fromDecimal [of n False] fromDecimal_small_is_v4 [of n]
  by blast

theorem C4_witness:
  "decimal (fromDecimal 3232236033 False) = 3232236033
   \<and> m_isV4 (fromDecimal 3232236033 False)
   \<and> take 12 (m_bytes (fromDecimal 3232236033 False)) = [0, 0, 0, 0, 0, 0, 0, 0, 0, 0, 0xff, 0xff]
   \<and> decimal (fromDecimal (2 ^ 128 - 1) False) = 2 ^ 128 - 1"
  using C4_decimal_round_trip [of 3232236033] C4_decimal_round_trip [of "2 ^ 128 - 1"]
  by (simp add: mappedV4Prefix_value)

section \<open>\<open>fromDecimal\<close> has no range check\<close>

text \<open>
  C3, as amended. \<open>fromDecimal\<close> has no failing branch. For \<open>n\<close> from 0 up to but
  excluding \<open>2^128\<close> its address has sixteen bytes and decimal value \<open>n\<close>. For
  \<open>n\<close> of \<open>2^128\<close> or more it returns an address as well: the text of \<open>n\<close> in
  base 16 has more than 32 digits, the bytes are its pairs of digits from the left (a
  last single digit is dropped), there are at least sixteen of them, and the address is
  not IPv4.
\<close>

theorem C3_fromDecimal_never_raises:
  "(0 \<le> n \<and> n < 2 ^ 128 \<longrightarrow>
      length (m_bytes (fromDecimal n forceV6)) = 16 \<and> decimal (fromDecimal n forceV6) = n)
   \<and> (2 ^ 128 \<le> n \<longrightarrow>
        fromDecimal n forceV6 =
          \<lparr>m_bytes = from_hex (hex_int n), m_isV4 = False, m_zone = None\<rparr> \<and>
        length (from_hex (hex_int n)) = length (hex_int n) div 2 \<and>
        16 \<le> length (from_hex (hex_int n)))"
  using length_fromDecimal [of n forceV6] decimal_fromDecimal [of n forceV6]
    fromDecimal_large(1) [of n forceV6] fromDecimal_large(2,3) [of n]
  by blast

theorem C3_witness:
  "length (m_bytes (fromDecimal (2 ^ 127) True)) = 16
   \<and> decimal (fromDecimal (2 ^ 127) True) = 2 ^ 127
   \<and> fromDecimal (2 ^ 136) False =
       \<lparr>m_bytes = [0x10, 0, 0, 0, 0, 0, 0, 0, 0, 0, 0, 0, 0, 0, 0, 0, 0],
        m_isV4 = False, m_zone = None\<rparr>"
proof -
  have h: "from_hex (hex_int (2 ^ 136))
      = [0x10, 0, 0, 0, 0, 0, 0, 0, 0, 0, 0, 0, 0, 0, 0, 0, 0]"
    by code_simp
  have a: "length (m_bytes (fromDecimal (2 ^ 127) True)) = 16
      \<and> decimal (fromDecimal (2 ^ 127) True) = 2 ^ 127"
    using C3_fromDecimal_never_raises [of "2 ^ 127" True] by simp
  have b: "fromDecimal (2 ^ 136) False =
      \<lparr>m_bytes = from_hex (hex_int (2 ^ 136)), m_isV4 = False, m_zone = None\<rparr>"
    using C3_fromDecimal_never_raises [of "2 ^ 136" False] by simp
  show ?thesis
    using a b unfolding h by blast
qed

text \<open>
  C3 as stated fails: \<open>2^128\<close> is answered with an address, that of \<open>2^124\<close>.
\<close>

theorem C3_counterexample:
  "fromDecimal (2 ^ 128) False =
     \<lparr>m_bytes = [0x10, 0, 0, 0, 0, 0, 0, 0, 0, 0, 0, 0, 0, 0, 0, 0],
      m_isV4 = False, m_zone = None\<rparr>"
  by code_simp

section \<open>Which zero run is elided\<close>



end
